theory Spec2Isabelle
  imports Complex_Main "HOL-Library.Word"
begin

unbundle bit_operations_syntax

section \<open>CAN node: data model (neo\_omnidrive\_socketcan.cpp)\<close>

text \<open>
  Machine integers are words: \<open>int32_t\<close> and \<open>int\<close> are \<open>32 word\<close> (read with
  \<open>sint\<close>), a \<open>char\<close> is an \<open>8 word\<close>. Doubles are modelled as real numbers:
  rounding, infinities and NaN are outside the model. A \<open>ros::Time\<close> is a number of
  nanoseconds, and \<open>toSec\<close> of a difference of two times is that number divided by
  \<open>10^9\<close>.
\<close>

type_synonym int32_t = "32 word"
type_synonym cchar = "8 word"
type_synonym ros_time = int

datatype motor_state_e =
  ST_PRE_INITIALIZED | ST_OPERATION_ENABLED | ST_OPERATION_DISABLED | ST_MOTOR_FAILURE

record motor_t =
  joint_name :: string
  can_id :: int32_t
  rot_sign :: int32_t
  enc_ticks_per_rev :: int32_t
  enc_home_offset :: int32_t
  max_vel_enc_s :: int32_t
  max_accel_enc_s :: int32_t
  can_Tx_PDO1 :: int32_t
  can_Tx_PDO2 :: int32_t
  can_Rx_PDO2 :: int32_t
  can_Tx_SDO :: int32_t
  can_Rx_SDO :: int32_t
  gear_ratio :: real
  state :: motor_state_e
  curr_enc_pos_inc :: int32_t
  curr_enc_vel_inc_s :: int32_t
  curr_status :: int32_t
  curr_motor_failure :: int32_t
  request_send_time :: ros_time
  status_recv_time :: ros_time
  last_update_time :: ros_time
  homing_state :: int32_t

record module_t =
  drive :: motor_t
  steer :: motor_t
  home_dig_in :: int32_t
  home_angle :: real
  curr_wheel_pos :: real
  curr_wheel_vel :: real
  curr_steer_pos :: real
  curr_steer_vel :: real

text \<open>
  \<open>can_msg_t\<close>: the fields \<open>id\<close> and \<open>length\<close> carry the suffix \<open>_msg\<close>;
  \<open>data\<close> is the array \<open>char data[8]\<close>, a list of eight bytes.
\<close>

record can_msg_t =
  id_msg :: int32_t
  length_msg :: int32_t
  data :: "cchar list"

definition can_msg_init :: can_msg_t where
  "can_msg_init = \<lparr>id_msg = - 1, length_msg = 0, data = replicate 8 0\<rparr>"

text \<open>The kernel's \<open>struct can_frame\<close> as written to the socket (16 bytes).\<close>

record can_frame =
  frame_id :: int32_t
  frame_dlc :: cchar
  frame_data :: "cchar list"

datatype error =
  InvalidOffset | Shutdown | WriteFailed | BufferOverflow | ArityMismatch

datatype log_level = LogInfo | LogWarn | LogError

type_synonym log_entry = "log_level \<times> string"

section \<open>Frame codec and transmission\<close>

text \<open>
  \<open>can_transmit\<close>: the frame is zero-initialised and the first \<open>length\<close> bytes are
  copied. The two inputs from the environment are the run flag \<open>do_run\<close> as read after
  the wait for the socket, and \<open>res\<close>, the value \<open>::write\<close> returns. On success
  the result is the frame that went to the bus.
\<close>

definition sizeof_can_frame :: int where
  "sizeof_can_frame = 16"

definition to_can_frame :: "can_msg_t \<Rightarrow> can_frame" where
  "to_can_frame msg =
     \<lparr>frame_id = id_msg msg,
      frame_dlc = ucast (length_msg msg),
      frame_data = map (\<lambda>i. if int i < sint (length_msg msg) then data msg ! i else 0) [0..<8]\<rparr>"

definition can_transmit :: "bool \<Rightarrow> int \<Rightarrow> can_msg_t \<Rightarrow> error + can_frame" where
  "can_transmit do_run res msg =
     (if \<not> do_run then Inl Shutdown
      else if res < 0 then Inl WriteFailed
      else if res \<noteq> sizeof_can_frame then Inl BufferOverflow
      else Inr (to_can_frame msg))"

text \<open>
  The local \<open>msg\<close> that \<open>canopen_query\<close> and \<open>canopen_set_int\<close> build. Assigning an
  \<open>int32_t\<close> to a \<open>char\<close> keeps the low byte (\<open>ucast\<close>); \<open>>>\<close> on \<open>int32_t\<close> is
  the arithmetic shift.
\<close>

definition canopen_query_msg :: "motor_t \<Rightarrow> cchar \<Rightarrow> cchar \<Rightarrow> int32_t \<Rightarrow> can_msg_t" where
  "canopen_query_msg motor cmd_char_1 cmd_char_2 index =
     can_msg_init
       \<lparr>id_msg := can_Rx_PDO2 motor,
        length_msg := 4,
        data := (data can_msg_init)
          [0 := cmd_char_1,
           1 := cmd_char_2,
           2 := ucast index,
           3 := ucast (signed_drop_bit 8 index AND 0x3F)]\<rparr>"

definition canopen_query ::
  "bool \<Rightarrow> int \<Rightarrow> motor_t \<Rightarrow> cchar \<Rightarrow> cchar \<Rightarrow> int32_t \<Rightarrow> error + can_frame" where
  "canopen_query do_run res motor cmd_char_1 cmd_char_2 index =
     can_transmit do_run res (canopen_query_msg motor cmd_char_1 cmd_char_2 index)"

definition canopen_set_int_msg ::
  "motor_t \<Rightarrow> cchar \<Rightarrow> cchar \<Rightarrow> int32_t \<Rightarrow> int32_t \<Rightarrow> can_msg_t" where
  "canopen_set_int_msg motor cmd_char_1 cmd_char_2 index dat =
     can_msg_init
       \<lparr>id_msg := can_Rx_PDO2 motor,
        length_msg := 8,
        data := (data can_msg_init)
          [0 := cmd_char_1,
           1 := cmd_char_2,
           2 := ucast index,
           3 := ucast (signed_drop_bit 8 index AND 0x3F),
           4 := ucast dat,
           5 := ucast (signed_drop_bit 8 dat),
           6 := ucast (signed_drop_bit 16 dat),
           7 := ucast (signed_drop_bit 24 dat)]\<rparr>"

definition canopen_set_int ::
  "bool \<Rightarrow> int \<Rightarrow> motor_t \<Rightarrow> cchar \<Rightarrow> cchar \<Rightarrow> int32_t \<Rightarrow> int32_t \<Rightarrow> error + can_frame" where
  "canopen_set_int do_run res motor cmd_char_1 cmd_char_2 index dat =
     can_transmit do_run res (canopen_set_int_msg motor cmd_char_1 cmd_char_2 index dat)"

text \<open>
  \<open>read_int32\<close>. The conversion \<open>int32_t(msg.data[i])\<close> depends on whether plain
  \<open>char\<close> is signed, which the C++ implementation fixes: it is signed on x86 and x86-64
  Linux (sign extension, \<open>scast\<close>) and unsigned on ARM Linux (zero extension,
  \<open>ucast\<close>). The flag \<open>char_signed\<close> is that property of the platform.
\<close>

definition char_to_int32 :: "bool \<Rightarrow> cchar \<Rightarrow> int32_t" where
  "char_to_int32 char_signed c = (if char_signed then scast c else ucast c)"

definition read_int32 :: "bool \<Rightarrow> can_msg_t \<Rightarrow> int32_t \<Rightarrow> error + int32_t" where
  "read_int32 char_signed msg offset =
     (if offset <s 0 \<or> 4 <s offset then Inl InvalidOffset
      else Inr
        (push_bit 24 (char_to_int32 char_signed (data msg ! (nat (sint offset) + 3)))
         OR push_bit 16 (char_to_int32 char_signed (data msg ! (nat (sint offset) + 2)))
         OR push_bit 8 (char_to_int32 char_signed (data msg ! (nat (sint offset) + 1)))
         OR char_to_int32 char_signed (data msg ! (nat (sint offset) + 0))))"

section \<open>Motor commands and motor state\<close>

text \<open>The default member initialisers of \<open>motor_t\<close>; a \<open>ros::Time\<close> starts at zero.\<close>

definition motor_init :: motor_t where
  "motor_init =
     \<lparr>joint_name = [], can_id = - 1, rot_sign = 0, enc_ticks_per_rev = 0,
      enc_home_offset = 0, max_vel_enc_s = 1000000, max_accel_enc_s = 1000000,
      can_Tx_PDO1 = - 1, can_Tx_PDO2 = - 1, can_Rx_PDO2 = - 1, can_Tx_SDO = - 1,
      can_Rx_SDO = - 1, gear_ratio = 0, state = ST_PRE_INITIALIZED,
      curr_enc_pos_inc = 0, curr_enc_vel_inc_s = 0, curr_status = 0,
      curr_motor_failure = 0, request_send_time = 0, status_recv_time = 0,
      last_update_time = 0, homing_state = - 1\<rparr>"

definition module_init :: module_t where
  "module_init =
     \<lparr>drive = motor_init, steer = motor_init, home_dig_in = 0, home_angle = 0,
      curr_wheel_pos = 0, curr_wheel_vel = 0, curr_steer_pos = 0, curr_steer_vel = 0\<rparr>"

text \<open>A character literal as a \<open>char\<close> value.\<close>

definition c_char :: "char \<Rightarrow> cchar" where
  "c_char c = of_char c"

text \<open>Streaming an \<open>int\<close> into a log message prints it in decimal.\<close>

function show_nat :: "nat \<Rightarrow> string" where
  "show_nat n =
     (if n < 10 then [char_of (48 + n)]
      else show_nat (n div 10) @ [char_of (48 + n mod 10)])"
  by pat_completeness auto
termination
  by (relation "measure (\<lambda>n. n)") auto

definition show_int :: "int \<Rightarrow> string" where
  "show_int i = (if i < 0 then CHR ''-'' # show_nat (nat (- i)) else show_nat (nat i))"

definition toSec :: "int \<Rightarrow> real" where
  "toSec d = real_of_int d / 10 ^ 9"

text \<open>
  \<open>check_motor_timeout\<close>: the first argument is the member \<open>m_motor_timeout\<close>; the
  result is what was logged and the motor as left behind.
\<close>

definition check_motor_timeout :: "real \<Rightarrow> motor_t \<Rightarrow> ros_time \<Rightarrow> log_entry list \<times> motor_t" where
  "check_motor_timeout m_motor_timeout motor now =
     (if status_recv_time motor < request_send_time motor
         \<and> toSec (now - request_send_time motor) > m_motor_timeout
      then
        ((if state motor \<noteq> ST_MOTOR_FAILURE
          then [(LogError, joint_name motor @ '': motor status timeout!'')] else []),
         motor\<lparr>state := ST_MOTOR_FAILURE\<rparr>)
      else ([], motor))"

text \<open>\<open>check_homing_done\<close>: the loop over \<open>m_wheels\<close> with its early return.\<close>

fun check_homing_done :: "module_t list \<Rightarrow> bool" where
  "check_homing_done [] = True"
| "check_homing_done (wheel # rest) =
     (if homing_state (steer wheel) \<noteq> 1 then False else check_homing_done rest)"

text \<open>
  \<open>motor_set_vel\<close>. The conversion \<open>int(x)\<close> of a double truncates towards zero; out
  of the range of \<open>int\<close> C++ leaves it undefined, and \<open>ub\<close> stands for whatever the
  platform yields there. The product with \<open>rot_sign\<close> wraps around. \<open>std::max\<close>
  and \<open>std::min\<close> compare as signed integers.
\<close>

definition double_to_int :: "int32_t \<Rightarrow> real \<Rightarrow> int32_t" where
  "double_to_int ub x =
     (let t = (if x < 0 then - \<lfloor>- x\<rfloor> else \<lfloor>x\<rfloor>)
      in if - (2 ^ 31) \<le> t \<and> t < 2 ^ 31 then word_of_int t else ub)"

definition std_max :: "int32_t \<Rightarrow> int32_t \<Rightarrow> int32_t" where
  "std_max a b = (if a <s b then b else a)"

definition std_min :: "int32_t \<Rightarrow> int32_t \<Rightarrow> int32_t" where
  "std_min a b = (if b <s a then b else a)"

text \<open>The locals \<open>motor_vel_inc_s\<close> and \<open>lim_motor_vel_inc_s\<close> of \<open>motor_set_vel\<close>.\<close>

definition motor_vel_inc_s :: "int32_t \<Rightarrow> motor_t \<Rightarrow> real \<Rightarrow> int32_t" where
  "motor_vel_inc_s ub motor rot_vel_rad_s =
     (let motor_vel_rev_s = gear_ratio motor * rot_vel_rad_s / (2 * pi)
      in rot_sign motor
           * double_to_int ub (motor_vel_rev_s * real_of_int (sint (enc_ticks_per_rev motor))))"

definition lim_motor_vel_inc_s :: "int32_t \<Rightarrow> motor_t \<Rightarrow> real \<Rightarrow> int32_t" where
  "lim_motor_vel_inc_s ub motor rot_vel_rad_s =
     std_min (std_max (motor_vel_inc_s ub motor rot_vel_rad_s) (- max_vel_enc_s motor))
       (max_vel_enc_s motor)"

definition motor_set_vel ::
  "int32_t \<Rightarrow> bool \<Rightarrow> int \<Rightarrow> motor_t \<Rightarrow> real \<Rightarrow> error + can_frame" where
  "motor_set_vel ub do_run res motor rot_vel_rad_s =
     canopen_set_int do_run res motor (c_char CHR ''J'') (c_char CHR ''V'') 0
       (lim_motor_vel_inc_s ub motor rot_vel_rad_s)"

text \<open>
  \<open>evaluate_status\<close>: the result is what was logged, and either the error thrown by
  the transmission of the failure query (the motor is then left as it was) or the motor
  as left behind with the frames sent.
\<close>

definition drive_error_text :: "int32_t \<Rightarrow> string" where
  "drive_error_text status =
     (if status AND 0xE = 2 then '': drive error under voltage''
      else if status AND 0xE = 4 then '': drive error over voltage''
      else if status AND 0xE = 10 then '': drive error short circuit''
      else if status AND 0xE = 12 then '': drive error over-heating''
      else '': unknown failure: '' @ show_int (sint (status AND 0xE)))"

definition evaluate_status ::
  "bool \<Rightarrow> int \<Rightarrow> motor_t \<Rightarrow> int32_t
     \<Rightarrow> log_entry list \<times> (error + motor_t \<times> can_frame list)" where
  "evaluate_status do_run res motor prev_status =
     (if curr_status motor AND 1 \<noteq> 0 then
        (let logged =
               (if curr_status motor \<noteq> prev_status
                then [(LogError, joint_name motor @ drive_error_text (curr_status motor))]
                else [])
         in case canopen_query do_run res motor (c_char CHR ''M'') (c_char CHR ''F'') 0 of
              Inl e \<Rightarrow> (logged, Inl e)
            | Inr f \<Rightarrow> (logged, Inr (motor\<lparr>state := ST_MOTOR_FAILURE\<rparr>, [f])))
      else if curr_status motor AND push_bit 6 1 \<noteq> 0 then
        (let logged =
               (if curr_status motor \<noteq> prev_status
                then [(LogError, joint_name motor @ '': failure latched'')]
                else [])
         in case canopen_query do_run res motor (c_char CHR ''M'') (c_char CHR ''F'') 0 of
              Inl e \<Rightarrow> (logged, Inl e)
            | Inr f \<Rightarrow> (logged, Inr (motor\<lparr>state := ST_MOTOR_FAILURE\<rparr>, [f])))
      else if curr_status motor AND push_bit 4 1 \<noteq> 0 then
        ((if state motor \<noteq> ST_OPERATION_ENABLED
          then [(LogInfo, joint_name motor @ '': operation enabled'')] else []),
         Inr (motor\<lparr>state := ST_OPERATION_ENABLED\<rparr>, []))
      else
        ((if state motor \<noteq> ST_OPERATION_DISABLED
          then [(LogInfo, joint_name motor @ '': operation disabled'')] else []),
         Inr (motor\<lparr>state := ST_OPERATION_DISABLED\<rparr>, [])))"

section \<open>Inverse kinematics (OmniKinematics.h)\<close>

text \<open>
  The functions of the C library and of the ROS \<open>angles\<close> package that \<open>compute\<close>
  calls, on real numbers: \<open>hypot\<close>, \<open>atan2\<close> (with the value 0 at the origin),
  \<open>normalize_angle\<close> (the representative of an angle in \<open>(-pi, pi]\<close>) and
  \<open>shortest_angular_distance\<close>. \<open>M_PI\<close> is \<open>pi\<close>.
\<close>

definition hypot :: "real \<Rightarrow> real \<Rightarrow> real" where
  "hypot x y = sqrt (x\<^sup>2 + y\<^sup>2)"

definition atan2 :: "real \<Rightarrow> real \<Rightarrow> real" where
  "atan2 y x =
     (if 0 < x then arctan (y / x)
      else if x < 0 \<and> 0 \<le> y then arctan (y / x) + pi
      else if x < 0 then arctan (y / x) - pi
      else if 0 < y then pi / 2
      else if y < 0 then - pi / 2
      else 0)"

definition normalize_angle :: "real \<Rightarrow> real" where
  "normalize_angle a = a - 2 * pi * real_of_int \<lceil>(a - pi) / (2 * pi)\<rceil>"

definition shortest_angular_distance :: "real \<Rightarrow> real \<Rightarrow> real" where
  "shortest_angular_distance from to = normalize_angle (to - from)"

text \<open>
  Modelled from the spec: \<open>OmniWheel.h\<close> is not among the sources. The record has the
  fields \<open>compute\<close> reads and writes (mounting offsets \<open>center_pos_x\<close> and
  \<open>center_pos_y\<close>, \<open>home_angle\<close>, \<open>wheel_angle\<close>, \<open>wheel_vel\<close>); any further
  field of the class is in the record's extension.
\<close>

record OmniWheel =
  center_pos_x :: real
  center_pos_y :: real
  home_angle :: real
  wheel_angle :: real
  wheel_vel :: real

text \<open>
  Modelled from the spec: \<open>OmniWheel::get_wheel_pos_radius\<close>, the radius of the wheel's
  mounting position in polar coordinates.
\<close>

definition get_wheel_pos_radius :: "'a OmniWheel_scheme \<Rightarrow> real" where
  "get_wheel_pos_radius wheel = hypot (center_pos_x wheel) (center_pos_y wheel)"

text \<open>
  Modelled from the spec: \<open>OmniWheel::get_wheel_pos_angle\<close>, the angle of the wheel's
  mounting position in polar coordinates.
\<close>

definition get_wheel_pos_angle :: "'a OmniWheel_scheme \<Rightarrow> real" where
  "get_wheel_pos_angle wheel = atan2 (center_pos_y wheel) (center_pos_x wheel)"

text \<open>
  Modelled from the spec: \<open>OmniWheel::set_wheel_angle\<close>, which stores the computed
  wheel angle.
\<close>

definition set_wheel_angle :: "'a OmniWheel_scheme \<Rightarrow> real \<Rightarrow> 'a OmniWheel_scheme" where
  "set_wheel_angle wheel a = wheel\<lparr>wheel_angle := a\<rparr>"

text \<open>
  The solver. \<open>num_wheels\<close> is a natural number: the constructor resizes both flag
  vectors to it, so it is never negative in a constructed object.
\<close>

record OmniKinematics =
  zero_vel_threshold :: real
  steering_hysteresis :: real
  home_on_stop :: bool
  num_wheels :: nat
  is_driving :: "bool list"
  is_alternate :: "bool list"

definition OmniKinematics_init :: "nat \<Rightarrow> OmniKinematics" where
  "OmniKinematics_init n =
     \<lparr>zero_vel_threshold = 0.01, steering_hysteresis = 0.1, home_on_stop = False,
      num_wheels = n, is_driving = replicate n False,
      is_alternate = replicate n False\<rparr>"

text \<open>The locals \<open>vel_x\<close> and \<open>vel_y\<close> of the loop body.\<close>

definition vel_x :: "'a OmniWheel_scheme \<Rightarrow> real \<Rightarrow> real \<Rightarrow> real" where
  "vel_x wheel move_vel_x move_yawrate =
     (let wheel_pos_radius = get_wheel_pos_radius wheel;
          wheel_pos_angle = get_wheel_pos_angle wheel;
          tangential = wheel_pos_radius * move_yawrate
      in move_vel_x + tangential * - sin wheel_pos_angle)"

definition vel_y :: "'a OmniWheel_scheme \<Rightarrow> real \<Rightarrow> real \<Rightarrow> real" where
  "vel_y wheel move_vel_y move_yawrate =
     (let wheel_pos_radius = get_wheel_pos_radius wheel;
          wheel_pos_angle = get_wheel_pos_angle wheel;
          tangential = wheel_pos_radius * move_yawrate
      in move_vel_y + tangential * cos wheel_pos_angle)"

text \<open>
  One pass of the second loop of \<open>compute\<close> for the wheel at index \<open>i\<close>: the wheel
  pushed to the result and the solver with its two flags at \<open>i\<close> rewritten.
\<close>

definition compute_wheel ::
  "OmniKinematics \<Rightarrow> nat \<Rightarrow> 'a OmniWheel_scheme \<Rightarrow> real \<Rightarrow> real \<Rightarrow> real
     \<Rightarrow> 'a OmniWheel_scheme \<times> OmniKinematics" where
  "compute_wheel k i wheel move_vel_x move_vel_y move_yawrate =
     (let new_wheel_angle =
            atan2 (vel_y wheel move_vel_y move_yawrate) (vel_x wheel move_vel_x move_yawrate);
          new_wheel_vel =
            hypot (vel_x wheel move_vel_x move_yawrate) (vel_y wheel move_vel_y move_yawrate)
      in
        if \<bar>wheel_vel wheel\<bar>
             > (if is_driving k ! i then zero_vel_threshold k else 2 * zero_vel_threshold k)
        then
          (if new_wheel_vel * wheel_vel wheel < 0
           then
             ((set_wheel_angle wheel (normalize_angle (new_wheel_angle + pi)))
                \<lparr>wheel_vel := - 1 * new_wheel_vel\<rparr>,
              k\<lparr>is_alternate := (is_alternate k)[i := True],
                is_driving := (is_driving k)[i := True]\<rparr>)
           else
             ((set_wheel_angle wheel new_wheel_angle)\<lparr>wheel_vel := new_wheel_vel\<rparr>,
              k\<lparr>is_alternate := (is_alternate k)[i := False],
                is_driving := (is_driving k)[i := True]\<rparr>))
        else
          (let center_pos_angle = atan2 (center_pos_y wheel) (center_pos_x wheel);
               outer_wheel_angle = normalize_angle (center_pos_angle - pi / 2)
           in
             if \<bar>shortest_angular_distance new_wheel_angle outer_wheel_angle\<bar>
                  > pi / 2 + (if is_alternate k ! i then - 1 else 1) * steering_hysteresis k
             then
               ((set_wheel_angle wheel (normalize_angle (new_wheel_angle + pi)))
                  \<lparr>wheel_vel := - 1 * new_wheel_vel\<rparr>,
                k\<lparr>is_alternate := (is_alternate k)[i := True],
                  is_driving := (is_driving k)[i := False]\<rparr>)
             else
               ((set_wheel_angle wheel new_wheel_angle)\<lparr>wheel_vel := new_wheel_vel\<rparr>,
                k\<lparr>is_alternate := (is_alternate k)[i := False],
                  is_driving := (is_driving k)[i := False]\<rparr>)))"

text \<open>The loop over the indices, pushing each new wheel to \<open>result\<close>.\<close>

fun compute_loop ::
  "nat list \<Rightarrow> OmniKinematics \<Rightarrow> 'a OmniWheel_scheme list \<Rightarrow> real \<Rightarrow> real \<Rightarrow> real
     \<Rightarrow> 'a OmniWheel_scheme list \<Rightarrow> 'a OmniWheel_scheme list \<times> OmniKinematics" where
  "compute_loop [] k wheels move_vel_x move_vel_y move_yawrate result = (result, k)"
| "compute_loop (i # rest) k wheels move_vel_x move_vel_y move_yawrate result =
     (case compute_wheel k i (wheels ! i) move_vel_x move_vel_y move_yawrate of
        (new_wheel, k') \<Rightarrow>
          compute_loop rest k' wheels move_vel_x move_vel_y move_yawrate (result @ [new_wheel]))"

text \<open>The first loop of \<open>compute\<close>, taken when no move command is given.\<close>

definition stop_wheel :: "OmniKinematics \<Rightarrow> 'a OmniWheel_scheme \<Rightarrow> 'a OmniWheel_scheme" where
  "stop_wheel k wheel =
     (let new_wheel = wheel;
          new_wheel = (if home_on_stop k then new_wheel\<lparr>wheel_angle := home_angle wheel\<rparr>
                       else new_wheel)
      in new_wheel\<lparr>wheel_vel := 0\<rparr>)"

definition compute ::
  "OmniKinematics \<Rightarrow> 'a OmniWheel_scheme list \<Rightarrow> real \<Rightarrow> real \<Rightarrow> real
     \<Rightarrow> error + 'a OmniWheel_scheme list \<times> OmniKinematics" where
  "compute k wheels move_vel_x move_vel_y move_yawrate =
     (if length wheels \<noteq> num_wheels k then Inl ArityMismatch
      else if move_vel_x = 0 \<and> move_vel_y = 0 \<and> move_yawrate = 0
      then Inr (map (\<lambda>i. stop_wheel k (wheels ! i)) [0..<num_wheels k], k)
      else Inr (compute_loop [0..<num_wheels k] k wheels move_vel_x move_vel_y move_yawrate []))"

text \<open>
  The class invariant the constructor sets up: both flag vectors have \<open>num_wheels\<close>
  entries.
\<close>

definition kinematics_inv :: "OmniKinematics \<Rightarrow> bool" where
  "kinematics_inv k =
     (length (is_driving k) = num_wheels k \<and> length (is_alternate k) = num_wheels k)"

section \<open>Properties of the frame codec\<close>


lemma data_canopen_set_int_msg:
  "data (canopen_set_int_msg motor c1 c2 index v) =
     [c1, c2, ucast index, ucast (signed_drop_bit 8 index AND 0x3F), ucast v,
      ucast (signed_drop_bit 8 v), ucast (signed_drop_bit 16 v), ucast (signed_drop_bit 24 v)]"
  by (simp add: canopen_set_int_msg_def can_msg_init_def numeral_eq_Suc)

lemma little_endian_bytes:
  fixes v :: "32 word"
  shows "push_bit 24 (ucast (ucast (signed_drop_bit 24 v) :: 8 word))
     OR push_bit 16 (ucast (ucast (signed_drop_bit 16 v) :: 8 word))
     OR push_bit 8 (ucast (ucast (signed_drop_bit 8 v) :: 8 word))
     OR ucast (ucast v :: 8 word) = v"
proof (rule bit_word_eqI)
  fix n :: nat
  assume n: "n < LENGTH(32)"
  consider "n < 8" | "8 \<le> n" "n < 16" | "16 \<le> n" "n < 24" | "24 \<le> n" "n < 32"
    using n by fastforce
  then show "bit (push_bit 24 (ucast (ucast (signed_drop_bit 24 v) :: 8 word))
     OR push_bit 16 (ucast (ucast (signed_drop_bit 16 v) :: 8 word))
     OR push_bit 8 (ucast (ucast (signed_drop_bit 8 v) :: 8 word))
     OR (ucast (ucast v :: 8 word) :: 32 word)) n = bit v n"
    by cases (auto simp add: bit_simps)
qed

text \<open>
  Where plain \<open>char\<close> is unsigned, decoding at offset 4 returns the value that
  \<open>canopen_set_int\<close> encoded, for every value.
\<close>

lemma read_int32_canopen_set_int_unsigned_char:
  "read_int32 False (canopen_set_int_msg motor c1 c2 index v) 4 = Inr v"
  by (simp add: data_canopen_set_int_msg read_int32_def char_to_int32_def word_sless_alt
      little_endian_bytes)

text \<open>
  Claim C1 (decoding at offset 4 what \<open>canopen_set_int\<close> encoded returns the encoded
  value): where plain \<open>char\<close> is signed, the value 128 is encoded with the low byte
  \<open>0x80\<close>, which \<open>read_int32\<close> sign-extends before the bytes are or-ed together, and
  the decoded value is \<open>-128\<close>.
\<close>

theorem read_int32_canopen_set_int_signed_char:
  "read_int32 True
     (canopen_set_int_msg motor_init (c_char CHR ''J'') (c_char CHR ''V'') 0 128) 4
     = Inr (- 128)
   \<and> (- 128 :: int32_t) \<noteq> 128"
  by (simp add: data_canopen_set_int_msg read_int32_def char_to_int32_def word_sless_alt)

text \<open>
  Claim C8: \<open>read_int32\<close> fails with the invalid-offset error if and only if the
  offset is outside \<open>[0,4]\<close>, and for every offset in \<open>[0,4]\<close> it returns a value.
\<close>

theorem read_int32_invalid_offset_iff:
  "(read_int32 char_signed msg offset = Inl InvalidOffset
      \<longleftrightarrow> sint offset < 0 \<or> 4 < sint offset)
   \<and> (0 \<le> sint offset \<and> sint offset \<le> 4
        \<longrightarrow> (\<exists>v. read_int32 char_signed msg offset = Inr v))"
  by (simp add: read_int32_def word_sless_alt)

theorem read_int32_invalid_offset_iff_witness:
  "(0 :: int) \<le> sint (4 :: int32_t) \<and> sint (4 :: int32_t) \<le> (4 :: int)
   \<and> (\<exists>v. read_int32 True can_msg_init 4 = Inr v)
   \<and> read_int32 True can_msg_init 5 = Inl InvalidOffset
   \<and> read_int32 True can_msg_init (- 1) = Inl InvalidOffset"
  using read_int32_invalid_offset_iff [of True can_msg_init 4]
    read_int32_invalid_offset_iff [of True can_msg_init 5]
    read_int32_invalid_offset_iff [of True can_msg_init "- 1"]
  by simp

section \<open>Properties of the motor state\<close>




text \<open>
  Where \<open>::write\<close> fails, \<open>canopen_query\<close> throws before the state assignment is
  reached.
\<close>

lemma evaluate_status_write_failed:
  "curr_status motor AND 1 \<noteq> 0 \<Longrightarrow> do_run \<Longrightarrow> res < 0 \<Longrightarrow>
     snd (evaluate_status do_run res motor prev_status) = Inl WriteFailed"
  by (simp add: evaluate_status_def canopen_query_def can_transmit_def Let_def)

lemma filter_shorter: "length (filter P xs) < length xs \<Longrightarrow> \<exists>x \<in> set xs. \<not> P x"
  by (metis filter_True less_irrefl)

text \<open>
  Claim C6: \<open>check_homing_done\<close> is true if and only if every wheel's steer motor has
  homing state 1; with four wheels of which exactly three have homing state 1 it is
  false.
\<close>

theorem check_homing_done_iff:
  "(check_homing_done wheels = (\<forall>w \<in> set wheels. homing_state (steer w) = 1))
   \<and> (length wheels = 4 \<and> length (filter (\<lambda>w. homing_state (steer w) = 1) wheels) = 3
        \<longrightarrow> \<not> check_homing_done wheels)"
proof (intro conjI impI)
  show all: "check_homing_done wheels = (\<forall>w \<in> set wheels. homing_state (steer w) = 1)"
    by (induction wheels) auto
  assume "length wheels = 4 \<and> length (filter (\<lambda>w. homing_state (steer w) = 1) wheels) = 3"
  then have "length (filter (\<lambda>w. homing_state (steer w) = 1) wheels) < length wheels"
    by simp
  then have "\<exists>w \<in> set wheels. homing_state (steer w) \<noteq> 1"
    by (rule filter_shorter)
  then show "\<not> check_homing_done wheels"
    using all by blast
qed

theorem check_homing_done_iff_witness:
  "length
     [module_init\<lparr>steer := motor_init\<lparr>homing_state := 1\<rparr>\<rparr>,
      module_init\<lparr>steer := motor_init\<lparr>homing_state := 1\<rparr>\<rparr>,
      module_init\<lparr>steer := motor_init\<lparr>homing_state := 0\<rparr>\<rparr>,
      module_init\<lparr>steer := motor_init\<lparr>homing_state := 1\<rparr>\<rparr>] = 4
   \<and> length (filter (\<lambda>w. homing_state (steer w) = 1)
     [module_init\<lparr>steer := motor_init\<lparr>homing_state := 1\<rparr>\<rparr>,
      module_init\<lparr>steer := motor_init\<lparr>homing_state := 1\<rparr>\<rparr>,
      module_init\<lparr>steer := motor_init\<lparr>homing_state := 0\<rparr>\<rparr>,
      module_init\<lparr>steer := motor_init\<lparr>homing_state := 1\<rparr>\<rparr>]) = 3
   \<and> \<not> check_homing_done
     [module_init\<lparr>steer := motor_init\<lparr>homing_state := 1\<rparr>\<rparr>,
      module_init\<lparr>steer := motor_init\<lparr>homing_state := 1\<rparr>\<rparr>,
      module_init\<lparr>steer := motor_init\<lparr>homing_state := 0\<rparr>\<rparr>,
      module_init\<lparr>steer := motor_init\<lparr>homing_state := 1\<rparr>\<rparr>]
   \<and> check_homing_done
     [module_init\<lparr>steer := motor_init\<lparr>homing_state := 1\<rparr>\<rparr>,
      module_init\<lparr>steer := motor_init\<lparr>homing_state := 1\<rparr>\<rparr>]"
  using check_homing_done_iff [of
     "[module_init\<lparr>steer := motor_init\<lparr>homing_state := 1\<rparr>\<rparr>,
       module_init\<lparr>steer := motor_init\<lparr>homing_state := 1\<rparr>\<rparr>,
       module_init\<lparr>steer := motor_init\<lparr>homing_state := 0\<rparr>\<rparr>,
       module_init\<lparr>steer := motor_init\<lparr>homing_state := 1\<rparr>\<rparr>]"]
    check_homing_done_iff [of
     "[module_init\<lparr>steer := motor_init\<lparr>homing_state := 1\<rparr>\<rparr>,
       module_init\<lparr>steer := motor_init\<lparr>homing_state := 1\<rparr>\<rparr>]"]
  by simp

text \<open>
  Claim C7: \<open>check_motor_timeout\<close> sets the state to \<open>ST_MOTOR_FAILURE\<close> exactly when
  the status receive time is earlier than the request send time and more than the motor
  timeout has passed since the request, and leaves the motor as it was otherwise; the
  timeout is logged only when the motor was not in \<open>ST_MOTOR_FAILURE\<close> before; a check
  that follows a timed-out one, at any time, logs nothing and changes nothing.
\<close>

theorem check_motor_timeout_once:
  "(let timed_out = (status_recv_time motor < request_send_time motor
                      \<and> toSec (now - request_send_time motor) > m_motor_timeout);
        logged = fst (check_motor_timeout m_motor_timeout motor now);
        motor' = snd (check_motor_timeout m_motor_timeout motor now)
    in (timed_out \<longrightarrow> motor' = motor\<lparr>state := ST_MOTOR_FAILURE\<rparr>)
     \<and> (\<not> timed_out \<longrightarrow> motor' = motor)
     \<and> logged = (if timed_out \<and> state motor \<noteq> ST_MOTOR_FAILURE
                 then [(LogError, joint_name motor @ '': motor status timeout!'')] else [])
     \<and> (timed_out \<longrightarrow> check_motor_timeout m_motor_timeout motor' now' = ([], motor')))"
  by (simp add: check_motor_timeout_def Let_def)

theorem check_motor_timeout_once_witness:
  "status_recv_time
     (motor_init\<lparr>request_send_time := 5000000000, status_recv_time := 4000000000\<rparr>)
     < request_send_time
         (motor_init\<lparr>request_send_time := 5000000000, status_recv_time := 4000000000\<rparr>)
   \<and> toSec (7000000000 - 5000000000) > 1
   \<and> snd (check_motor_timeout 1
        (motor_init\<lparr>request_send_time := 5000000000, status_recv_time := 4000000000\<rparr>)
        7000000000)
     = motor_init\<lparr>request_send_time := 5000000000, status_recv_time := 4000000000,
         state := ST_MOTOR_FAILURE\<rparr>
   \<and> fst (check_motor_timeout 1
        (motor_init\<lparr>request_send_time := 5000000000, status_recv_time := 4000000000\<rparr>)
        7000000000)
     = [(LogError, '': motor status timeout!'')]
   \<and> check_motor_timeout 1
        (motor_init\<lparr>request_send_time := 5000000000, status_recv_time := 4000000000,
           state := ST_MOTOR_FAILURE\<rparr>)
        7020000000
     = ([], motor_init\<lparr>request_send_time := 5000000000, status_recv_time := 4000000000,
          state := ST_MOTOR_FAILURE\<rparr>)
   \<and> snd (check_motor_timeout 1
        (motor_init\<lparr>request_send_time := 5000000000, status_recv_time := 5500000000\<rparr>)
        7000000000)
     = motor_init\<lparr>request_send_time := 5000000000, status_recv_time := 5500000000\<rparr>"
  using check_motor_timeout_once [where
      motor = "motor_init\<lparr>request_send_time := 5000000000, status_recv_time := 4000000000\<rparr>"
      and now = 7000000000 and m_motor_timeout = 1 and now' = 7020000000]
    check_motor_timeout_once [where
      motor = "motor_init\<lparr>request_send_time := 5000000000, status_recv_time := 5500000000\<rparr>"
      and now = 7000000000 and m_motor_timeout = 1 and now' = 7020000000]
  by (auto simp add: Let_def toSec_def motor_init_def)

section \<open>Properties of the motor commands\<close>

lemma sint_minus:
  fixes m :: "32 word"
  assumes "sint m \<noteq> - (2 ^ 31)"
  shows "sint (- m) = - sint m"
proof -
  have "- (2 ^ 31) \<le> sint m" "sint m < 2 ^ 31"
    using sint_ge [of m] sint_lt [of m] by simp_all
  then have "signed_take_bit 31 (- sint m) = - sint m"
    using assms by (intro signed_take_bit_int_eq_self) simp_all
  then show ?thesis
    by (simp add: sint_word_ariths)
qed

lemma std_min_max_neg:
  assumes "sint m < 0"
  shows "std_min (std_max v (- m)) m = m"
proof (cases "sint m = - (2 ^ 31)")
  case True
  then have "sint m \<le> sint x" for x :: "32 word"
    using sint_ge [of x] by simp
  then have le: "sint m \<le> sint (std_max v (- m))"
    by blast
  show ?thesis
  proof (cases "sint m < sint (std_max v (- m))")
    case True
    then show ?thesis by (simp add: std_min_def word_sless_alt)
  next
    case False
    then have "sint (std_max v (- m)) = sint m" using le by simp
    then have "std_max v (- m) = m" by (rule signed_word_eqI)
    then show ?thesis by (simp add: std_min_def)
  qed
next
  case False
  then have "sint (- m) = - sint m" by (rule sint_minus)
  then have "sint m < sint (std_max v (- m))"
    using assms by (simp add: std_max_def word_sless_alt)
  then show ?thesis
    by (simp add: std_min_def word_sless_alt)
qed

text \<open>The frame that a successful \<open>canopen_set_int\<close> writes.\<close>

lemma canopen_set_int_frame:
  assumes "canopen_set_int do_run res motor c1 c2 index v = Inr f"
  shows "do_run \<and> res = sizeof_can_frame"
    and "frame_id f = can_Rx_PDO2 motor"
    and "frame_dlc f = 8"
    and "frame_data f =
      [c1, c2, ucast index, ucast (signed_drop_bit 8 index AND 0x3F), ucast v,
       ucast (signed_drop_bit 8 v), ucast (signed_drop_bit 16 v), ucast (signed_drop_bit 24 v)]"
proof -
  have ok: "do_run \<and> res = sizeof_can_frame"
    and f: "f = to_can_frame (canopen_set_int_msg motor c1 c2 index v)"
    using assms by (auto simp add: canopen_set_int_def can_transmit_def split: if_splits)
  show "do_run \<and> res = sizeof_can_frame" by (rule ok)
  show "frame_id f = can_Rx_PDO2 motor"
    by (simp add: f to_can_frame_def canopen_set_int_msg_def)
  show "frame_dlc f = 8"
    by (simp add: f to_can_frame_def canopen_set_int_msg_def)
  have len: "length_msg (canopen_set_int_msg motor c1 c2 index v) = 8"
    by (simp add: canopen_set_int_msg_def)
  have upt: "[0..<8] = [0, 1, 2, 3, 4, 5, 6, 7::nat]"
    by (simp add: upt_rec)
  show "frame_data f =
      [c1, c2, ucast index, ucast (signed_drop_bit 8 index AND 0x3F), ucast v,
       ucast (signed_drop_bit 8 v), ucast (signed_drop_bit 16 v), ucast (signed_drop_bit 24 v)]"
    by (simp add: f to_can_frame_def len data_canopen_set_int_msg upt)
qed

text \<open>
  The limited value is the raw value clamped, where \<open>max_vel_enc_s\<close> is not negative;
  in every case it is at most \<open>max_vel_enc_s\<close> in magnitude.
\<close>

lemma lim_motor_vel_inc_s_clamp:
  assumes "0 \<le> sint (max_vel_enc_s motor)"
  shows "sint (lim_motor_vel_inc_s ub motor v) =
      min (max (sint (motor_vel_inc_s ub motor v)) (- sint (max_vel_enc_s motor)))
        (sint (max_vel_enc_s motor))"
proof -
  have "sint (- max_vel_enc_s motor) = - sint (max_vel_enc_s motor)"
    using assms by (intro sint_minus) simp
  then show ?thesis
    by (simp add: lim_motor_vel_inc_s_def std_min_def std_max_def word_sless_alt)
qed

lemma lim_motor_vel_inc_s_magnitude:
  "\<bar>sint (lim_motor_vel_inc_s ub motor v)\<bar> \<le> \<bar>sint (max_vel_enc_s motor)\<bar>"
proof (cases "0 \<le> sint (max_vel_enc_s motor)")
  case True
  then show ?thesis
    using lim_motor_vel_inc_s_clamp [OF True, of ub v] by simp
next
  case False
  then have "lim_motor_vel_inc_s ub motor v = max_vel_enc_s motor"
    by (simp add: lim_motor_vel_inc_s_def std_min_max_neg)
  then show ?thesis by simp
qed

text \<open>
  A motor with gear ratio 20 and 4096 ticks per revolution, commanded to 1000 revolutions
  per second.
\<close>

lemma motor_vel_inc_s_example:
  "motor_vel_inc_s 0
     (motor_init\<lparr>rot_sign := 1, enc_ticks_per_rev := 4096, gear_ratio := 20\<rparr>) (2000 * pi)
   = 81920000"
  unfolding motor_vel_inc_s_def Let_def by (simp add: double_to_int_def)

lemma max_vel_enc_s_init: "sint (max_vel_enc_s motor_init) = 1000000"
  by (simp add: motor_init_def)

text \<open>
  Claim C9: for every motor and every commanded velocity, \<open>motor_set_vel\<close> writes a
  frame whenever \<open>::write\<close> succeeds, and every frame it writes is the \<open>JV\<close>
  command of the motor whose payload bytes 4 to 7 carry, little-endian, an integer that
  never exceeds \<open>max_vel_enc_s\<close> in magnitude. Where \<open>max_vel_enc_s\<close> is not
  negative (the field is declared as a positive number of ticks per second) that integer
  is the converted command \<open>motor_vel_inc_s\<close> clamped to
  \<open>[-max_vel_enc_s, +max_vel_enc_s]\<close>, whatever the conversion to \<open>int\<close> and the
  product with \<open>rot_sign\<close> yield.
\<close>

theorem motor_set_vel_clamped:
  "(do_run \<and> res = sizeof_can_frame \<longrightarrow>
      (\<exists>f. motor_set_vel ub do_run res motor rot_vel_rad_s = Inr f))
   \<and> (\<forall>f. motor_set_vel ub do_run res motor rot_vel_rad_s = Inr f \<longrightarrow>
        frame_id f = can_Rx_PDO2 motor
        \<and> frame_dlc f = 8
        \<and> length (frame_data f) = 8
        \<and> take 4 (frame_data f) = [c_char CHR ''J'', c_char CHR ''V'', 0, 0]
        \<and> (let sent = push_bit 24 (ucast (frame_data f ! 7))
                    OR push_bit 16 (ucast (frame_data f ! 6))
                    OR push_bit 8 (ucast (frame_data f ! 5))
                    OR ucast (frame_data f ! 4) :: int32_t
            in \<bar>sint sent\<bar> \<le> \<bar>sint (max_vel_enc_s motor)\<bar>
             \<and> (0 \<le> sint (max_vel_enc_s motor) \<longrightarrow>
                  - sint (max_vel_enc_s motor) \<le> sint sent
                  \<and> sint sent \<le> sint (max_vel_enc_s motor)
                  \<and> sint sent =
                      min (max (sint (motor_vel_inc_s ub motor rot_vel_rad_s))
                             (- sint (max_vel_enc_s motor)))
                        (sint (max_vel_enc_s motor)))))"
proof (intro conjI allI impI)
  assume "do_run \<and> res = sizeof_can_frame"
  then show "\<exists>f. motor_set_vel ub do_run res motor rot_vel_rad_s = Inr f"
    by (simp add: motor_set_vel_def canopen_set_int_def can_transmit_def sizeof_can_frame_def)
next
  fix f
  assume "motor_set_vel ub do_run res motor rot_vel_rad_s = Inr f"
  then have sent: "canopen_set_int do_run res motor (c_char CHR ''J'') (c_char CHR ''V'') 0
      (lim_motor_vel_inc_s ub motor rot_vel_rad_s) = Inr f"
    by (simp add: motor_set_vel_def)
  note fr = canopen_set_int_frame [OF sent]
  show "frame_id f = can_Rx_PDO2 motor" by (rule fr(2))
  show "frame_dlc f = 8" by (rule fr(3))
  show "length (frame_data f) = 8" by (simp add: fr(4))
  show "take 4 (frame_data f) = [c_char CHR ''J'', c_char CHR ''V'', 0, 0]"
    by (simp add: fr(4))
  have dec: "(push_bit 24 (ucast (frame_data f ! 7))
        OR push_bit 16 (ucast (frame_data f ! 6))
        OR push_bit 8 (ucast (frame_data f ! 5))
        OR ucast (frame_data f ! 4) :: int32_t) = lim_motor_vel_inc_s ub motor rot_vel_rad_s"
    by (simp add: fr(4) little_endian_bytes)
  show "let sent = push_bit 24 (ucast (frame_data f ! 7))
                    OR push_bit 16 (ucast (frame_data f ! 6))
                    OR push_bit 8 (ucast (frame_data f ! 5))
                    OR ucast (frame_data f ! 4) :: int32_t
            in \<bar>sint sent\<bar> \<le> \<bar>sint (max_vel_enc_s motor)\<bar>
             \<and> (0 \<le> sint (max_vel_enc_s motor) \<longrightarrow>
                  - sint (max_vel_enc_s motor) \<le> sint sent
                  \<and> sint sent \<le> sint (max_vel_enc_s motor)
                  \<and> sint sent =
                      min (max (sint (motor_vel_inc_s ub motor rot_vel_rad_s))
                             (- sint (max_vel_enc_s motor)))
                        (sint (max_vel_enc_s motor)))"
    unfolding Let_def dec
    using lim_motor_vel_inc_s_magnitude [of ub motor rot_vel_rad_s]
      lim_motor_vel_inc_s_clamp [of motor ub rot_vel_rad_s]
    by auto
qed

theorem motor_set_vel_clamped_witness:
  "\<exists>f. motor_set_vel 0 True 16
          (motor_init\<lparr>rot_sign := 1, enc_ticks_per_rev := 4096, gear_ratio := 20\<rparr>)
          (2000 * pi) = Inr f
        \<and> sint (push_bit 24 (ucast (frame_data f ! 7))
                 OR push_bit 16 (ucast (frame_data f ! 6))
                 OR push_bit 8 (ucast (frame_data f ! 5))
                 OR ucast (frame_data f ! 4) :: int32_t) = 1000000"
proof -
  note t = motor_set_vel_clamped [of True 16 0
      "motor_init\<lparr>rot_sign := 1, enc_ticks_per_rev := 4096, gear_ratio := 20\<rparr>" "2000 * pi"]
  have "\<exists>f. motor_set_vel 0 True 16
      (motor_init\<lparr>rot_sign := 1, enc_ticks_per_rev := 4096, gear_ratio := 20\<rparr>)
      (2000 * pi) = Inr f"
    using t [THEN conjunct1] by (simp add: sizeof_can_frame_def)
  then obtain f where f: "motor_set_vel 0 True 16
      (motor_init\<lparr>rot_sign := 1, enc_ticks_per_rev := 4096, gear_ratio := 20\<rparr>)
      (2000 * pi) = Inr f" ..
  define sent :: int32_t where "sent = push_bit 24 (ucast (frame_data f ! 7))
                 OR push_bit 16 (ucast (frame_data f ! 6))
                 OR push_bit 8 (ucast (frame_data f ! 5))
                 OR ucast (frame_data f ! 4)"
  note u = t [THEN conjunct2, rule_format, OF f, unfolded Let_def, folded sent_def]
  then have "sint sent = 1000000"
    by (simp add: motor_vel_inc_s_example max_vel_enc_s_init)
  then show ?thesis
    using f unfolding sent_def by blast
qed

section \<open>Properties of the inverse kinematics\<close>

subsection \<open>One pass of the loop\<close>


lemma compute_wheel_snd:
  "\<exists>a d. snd (compute_wheel k i w vx vy yaw) =
     k\<lparr>is_alternate := (is_alternate k)[i := a], is_driving := (is_driving k)[i := d]\<rparr>"
  unfolding compute_wheel_def Let_def by (simp split: if_splits) blast

lemma compute_wheel_frame:
  assumes "compute_wheel k i w vx vy yaw = (w', k')"
  shows "zero_vel_threshold k' = zero_vel_threshold k"
    and "steering_hysteresis k' = steering_hysteresis k"
    and "home_on_stop k' = home_on_stop k"
    and "num_wheels k' = num_wheels k"
    and "length (is_driving k') = length (is_driving k)"
    and "length (is_alternate k') = length (is_alternate k)"
    and "j \<noteq> i \<Longrightarrow> is_driving k' ! j = is_driving k ! j"
    and "j \<noteq> i \<Longrightarrow> is_alternate k' ! j = is_alternate k ! j"
proof -
  obtain a d where "snd (compute_wheel k i w vx vy yaw) =
     k\<lparr>is_alternate := (is_alternate k)[i := a], is_driving := (is_driving k)[i := d]\<rparr>"
    using compute_wheel_snd by blast
  then have k': "k' = k\<lparr>is_alternate := (is_alternate k)[i := a], is_driving := (is_driving k)[i := d]\<rparr>"
    using assms by simp
  show "zero_vel_threshold k' = zero_vel_threshold k"
    and "steering_hysteresis k' = steering_hysteresis k"
    and "home_on_stop k' = home_on_stop k"
    and "num_wheels k' = num_wheels k"
    and "length (is_driving k') = length (is_driving k)"
    and "length (is_alternate k') = length (is_alternate k)"
    and "j \<noteq> i \<Longrightarrow> is_driving k' ! j = is_driving k ! j"
    and "j \<noteq> i \<Longrightarrow> is_alternate k' ! j = is_alternate k ! j"
    by (simp_all add: k')
qed

text \<open>
  The pass for index \<open>i\<close> reads the solver only through its thresholds and its flags
  at \<open>i\<close>.
\<close>

lemma compute_wheel_cong:
  assumes "zero_vel_threshold k1 = zero_vel_threshold k2"
    and "steering_hysteresis k1 = steering_hysteresis k2"
    and "is_driving k1 ! i = is_driving k2 ! i"
    and "is_alternate k1 ! i = is_alternate k2 ! i"
  shows "fst (compute_wheel k1 i w vx vy yaw) = fst (compute_wheel k2 i w vx vy yaw)"
    and "i < length (is_driving k1) \<Longrightarrow> i < length (is_driving k2) \<Longrightarrow>
           is_driving (snd (compute_wheel k1 i w vx vy yaw)) ! i
             = is_driving (snd (compute_wheel k2 i w vx vy yaw)) ! i"
    and "i < length (is_alternate k1) \<Longrightarrow> i < length (is_alternate k2) \<Longrightarrow>
           is_alternate (snd (compute_wheel k1 i w vx vy yaw)) ! i
             = is_alternate (snd (compute_wheel k2 i w vx vy yaw)) ! i"
  using assms unfolding compute_wheel_def Let_def by simp_all


subsection \<open>The loop and \<open>compute\<close>\<close>

lemma compute_loop_frame:
  "compute_loop idx k wheels vx vy yaw result = (res', k') \<Longrightarrow>
     zero_vel_threshold k' = zero_vel_threshold k
     \<and> steering_hysteresis k' = steering_hysteresis k
     \<and> home_on_stop k' = home_on_stop k
     \<and> num_wheels k' = num_wheels k
     \<and> length (is_driving k') = length (is_driving k)
     \<and> length (is_alternate k') = length (is_alternate k)
     \<and> (\<forall>j. j \<notin> set idx \<longrightarrow>
           is_driving k' ! j = is_driving k ! j \<and> is_alternate k' ! j = is_alternate k ! j)"
proof (induction idx arbitrary: k result)
  case Nil
  then show ?case by simp
next
  case (Cons i rest)
  obtain w k1 where step: "compute_wheel k i (wheels ! i) vx vy yaw = (w, k1)"
    by (cases "compute_wheel k i (wheels ! i) vx vy yaw")
  with Cons.prems have rest: "compute_loop rest k1 wheels vx vy yaw (result @ [w]) = (res', k')"
    by simp
  show ?case
    using Cons.IH [OF rest] compute_wheel_frame [OF step] by simp
qed

lemma compute_loop_result:
  assumes "distinct idx"
    and "\<forall>i \<in> set idx. i < length (is_driving k) \<and> i < length (is_alternate k)"
    and "compute_loop idx k wheels vx vy yaw result = (res', k')"
  shows "length res' = length result + length idx
     \<and> (\<forall>p < length result. res' ! p = result ! p)
     \<and> (\<forall>p < length idx. res' ! (length result + p)
           = fst (compute_wheel k (idx ! p) (wheels ! (idx ! p)) vx vy yaw))
     \<and> (\<forall>i \<in> set idx.
           is_driving k' ! i
             = is_driving (snd (compute_wheel k i (wheels ! i) vx vy yaw)) ! i
           \<and> is_alternate k' ! i
             = is_alternate (snd (compute_wheel k i (wheels ! i) vx vy yaw)) ! i)"
  using assms
proof (induction idx arbitrary: k result)
  case Nil
  then show ?case by simp
next
  case (Cons i rest)
  obtain w k1 where step: "compute_wheel k i (wheels ! i) vx vy yaw = (w, k1)"
    by (cases "compute_wheel k i (wheels ! i) vx vy yaw")
  with Cons.prems have rest: "compute_loop rest k1 wheels vx vy yaw (result @ [w]) = (res', k')"
    by simp
  note fr = compute_wheel_frame [OF step]
  have dist: "distinct rest" and notin: "i \<notin> set rest"
    using Cons.prems(1) by simp_all
  have bounds: "\<forall>j \<in> set rest. j < length (is_driving k1) \<and> j < length (is_alternate k1)"
    using Cons.prems(2) fr(5,6) by simp
  note IH = Cons.IH [OF dist bounds rest]
  have same: "fst (compute_wheel k1 j (wheels ! j) vx vy yaw)
        = fst (compute_wheel k j (wheels ! j) vx vy yaw)
      \<and> is_driving (snd (compute_wheel k1 j (wheels ! j) vx vy yaw)) ! j
        = is_driving (snd (compute_wheel k j (wheels ! j) vx vy yaw)) ! j
      \<and> is_alternate (snd (compute_wheel k1 j (wheels ! j) vx vy yaw)) ! j
        = is_alternate (snd (compute_wheel k j (wheels ! j) vx vy yaw)) ! j"
    if "j \<in> set rest" for j
  proof -
    have ne: "j \<noteq> i" using that notin by blast
    have b: "j < length (is_driving k)" "j < length (is_alternate k)"
      using that Cons.prems(2) by simp_all
    show ?thesis
      using compute_wheel_cong [of k1 k j "wheels ! j" vx vy yaw] fr(1,2,5,6) fr(7,8) [OF ne] b
      by simp
  qed
  have len: "length res' = length result + length (i # rest)"
    using IH by simp
  have old: "\<forall>p < length result. res' ! p = result ! p"
    using IH by (simp add: nth_append)
  have new: "res' ! (length result + p)
        = fst (compute_wheel k ((i # rest) ! p) (wheels ! ((i # rest) ! p)) vx vy yaw)"
    if "p < length (i # rest)" for p
  proof (cases p)
    case 0
    have "res' ! length result = (result @ [w]) ! length result"
      using IH by simp
    then show ?thesis using 0 step by simp
  next
    case (Suc q)
    then have q: "q < length rest" using that by simp
    then have "res' ! (length (result @ [w]) + q)
        = fst (compute_wheel k1 (rest ! q) (wheels ! (rest ! q)) vx vy yaw)"
      using IH by blast
    moreover have "rest ! q \<in> set rest" using q by simp
    ultimately show ?thesis using Suc same by simp
  qed
  have flags: "is_driving k' ! j
        = is_driving (snd (compute_wheel k j (wheels ! j) vx vy yaw)) ! j
      \<and> is_alternate k' ! j
        = is_alternate (snd (compute_wheel k j (wheels ! j) vx vy yaw)) ! j"
    if "j \<in> set (i # rest)" for j
  proof (cases "j = i")
    case True
    then show ?thesis
      using compute_loop_frame [OF rest] notin step by simp
  next
    case False
    then have "j \<in> set rest" using that by simp
    then show ?thesis using IH same by simp
  qed
  show ?case using len old new flags by blast
qed


lemma kinematics_inv_init: "kinematics_inv (OmniKinematics_init n)"
  by (simp add: kinematics_inv_def OmniKinematics_init_def)

lemma compute_arity_mismatch:
  "length wheels \<noteq> num_wheels k \<Longrightarrow> compute k wheels vx vy yaw = Inl ArityMismatch"
  by (simp add: compute_def)

lemma compute_zero:
  assumes "length wheels = num_wheels k"
  shows "compute k wheels 0 0 0 = Inr (map (stop_wheel k) wheels, k)"
proof -
  have "map (\<lambda>i. stop_wheel k (wheels ! i)) [0..<length wheels] = map (stop_wheel k) wheels"
    by (rule nth_equalityI) simp_all
  then show ?thesis
    using assms by (simp add: compute_def)
qed

lemma compute_nonzero:
  assumes inv: "kinematics_inv k"
    and len: "length wheels = num_wheels k"
    and cmd: "\<not> (vx = 0 \<and> vy = 0 \<and> yaw = 0)"
  shows "\<exists>res k'. compute k wheels vx vy yaw = Inr (res, k')
     \<and> length res = length wheels
     \<and> kinematics_inv k'
     \<and> (\<forall>i < num_wheels k.
           res ! i = fst (compute_wheel k i (wheels ! i) vx vy yaw)
           \<and> is_driving k' ! i
             = is_driving (snd (compute_wheel k i (wheels ! i) vx vy yaw)) ! i
           \<and> is_alternate k' ! i
             = is_alternate (snd (compute_wheel k i (wheels ! i) vx vy yaw)) ! i)"
proof -
  obtain res k' where loop:
    "compute_loop [0..<num_wheels k] k wheels vx vy yaw [] = (res, k')"
    by (cases "compute_loop [0..<num_wheels k] k wheels vx vy yaw []")
  have eq: "compute k wheels vx vy yaw = Inr (res, k')"
    using len cmd loop by (auto simp add: compute_def)
  have bounds: "\<forall>i \<in> set [0..<num_wheels k].
      i < length (is_driving k) \<and> i < length (is_alternate k)"
    using inv by (simp add: kinematics_inv_def)
  note r = compute_loop_result [OF distinct_upt bounds loop]
  note f = compute_loop_frame [OF loop]
  have "length res = length wheels"
    using r len by simp
  moreover have "kinematics_inv k'"
    using inv f by (simp add: kinematics_inv_def)
  moreover have "res ! i = fst (compute_wheel k i (wheels ! i) vx vy yaw)
      \<and> is_driving k' ! i = is_driving (snd (compute_wheel k i (wheels ! i) vx vy yaw)) ! i
      \<and> is_alternate k' ! i
        = is_alternate (snd (compute_wheel k i (wheels ! i) vx vy yaw)) ! i"
    if "i < num_wheels k" for i
  proof -
    have "res ! (length ([] :: 'a OmniWheel_scheme list) + i)
        = fst (compute_wheel k ([0..<num_wheels k] ! i) (wheels ! ([0..<num_wheels k] ! i)) vx vy yaw)"
      using r that by simp
    moreover have "i \<in> set [0..<num_wheels k]"
      using that by simp
    ultimately show ?thesis
      using r that by simp
  qed
  ultimately show ?thesis
    using eq by blast
qed

lemma hypot_nonneg: "0 \<le> hypot x y"
  by (simp add: hypot_def)

lemma normalize_angle_range: "- pi < normalize_angle a \<and> normalize_angle a \<le> pi"
proof -
  define c where "c = \<lceil>(a - pi) / (2 * pi)\<rceil>"
  have "real_of_int c - 1 < (a - pi) / (2 * pi)" and "(a - pi) / (2 * pi) \<le> real_of_int c"
    unfolding c_def by linarith+
  then have "(real_of_int c - 1) * (2 * pi) < a - pi" and "a - pi \<le> real_of_int c * (2 * pi)"
    by (simp_all add: pos_less_divide_eq pos_divide_le_eq)
  then show ?thesis
    unfolding normalize_angle_def c_def [symmetric] by (simp add: algebra_simps)
qed

lemma compute_wheel_is_driving:
  "i < length (is_driving k) \<Longrightarrow>
     is_driving (snd (compute_wheel k i w vx vy yaw)) ! i
       = (\<bar>wheel_vel w\<bar>
            > (if is_driving k ! i then zero_vel_threshold k else 2 * zero_vel_threshold k))"
proof -
  define c where "c \<longleftrightarrow> \<bar>wheel_vel w\<bar>
      > (if is_driving k ! i then zero_vel_threshold k else 2 * zero_vel_threshold k)"
  assume "i < length (is_driving k)"
  then show ?thesis
    unfolding compute_wheel_def Let_def c_def [symmetric] by (cases c) simp_all
qed

lemma compute_wheel_driving:
  assumes "\<bar>wheel_vel w\<bar>
      > (if is_driving k ! i then zero_vel_threshold k else 2 * zero_vel_threshold k)"
  shows "fst (compute_wheel k i w vx vy yaw) =
      (if hypot (vel_x w vx yaw) (vel_y w vy yaw) * wheel_vel w < 0
       then (set_wheel_angle w
               (normalize_angle (atan2 (vel_y w vy yaw) (vel_x w vx yaw) + pi)))
              \<lparr>wheel_vel := - 1 * hypot (vel_x w vx yaw) (vel_y w vy yaw)\<rparr>
       else (set_wheel_angle w (atan2 (vel_y w vy yaw) (vel_x w vx yaw)))
              \<lparr>wheel_vel := hypot (vel_x w vx yaw) (vel_y w vy yaw)\<rparr>)"
    and "i < length (is_alternate k) \<Longrightarrow>
      is_alternate (snd (compute_wheel k i w vx vy yaw)) ! i
        = (hypot (vel_x w vx yaw) (vel_y w vy yaw) * wheel_vel w < 0)"
  using assms unfolding compute_wheel_def Let_def by simp_all

text \<open>A wheel mounted on the x axis under the command \<open>(1, 0, 0)\<close>.\<close>

lemma vel_straight_ahead:
  "vel_x \<lparr>center_pos_x = 1, center_pos_y = 0, home_angle = h, wheel_angle = a, wheel_vel = v\<rparr> 1 0 = 1"
  "vel_y \<lparr>center_pos_x = 1, center_pos_y = 0, home_angle = h, wheel_angle = a, wheel_vel = v\<rparr> 0 0 = 0"
  by (simp_all add: vel_x_def vel_y_def)

subsection \<open>The zero command\<close>

text \<open>
  Claim C2: for every wheel vector of the configured length, \<open>compute\<close> with the
  command \<open>(0, 0, 0)\<close> returns a vector of the same length in which every wheel's
  velocity is zero and, when \<open>home_on_stop\<close> is set, every wheel's angle is that
  wheel's home angle.
\<close>

theorem compute_zero_command:
  assumes "length wheels = num_wheels k"
  shows "\<exists>res k'. compute k wheels 0 0 0 = Inr (res, k')
     \<and> length res = length wheels
     \<and> (\<forall>i < length wheels.
           wheel_vel (res ! i) = 0
           \<and> (home_on_stop k \<longrightarrow>
                wheel_angle (res ! i) = home_angle (wheels ! i)
                \<and> wheel_angle (res ! i) = home_angle (res ! i)))"
  using compute_zero [OF assms] by (simp add: stop_wheel_def Let_def)

theorem compute_zero_command_witness:
  "length [\<lparr>center_pos_x = 1, center_pos_y = 0, home_angle = 1 / 2, wheel_angle = 2, wheel_vel = 3\<rparr>,
           \<lparr>center_pos_x = - 1, center_pos_y = 0, home_angle = - 1 / 2, wheel_angle = 1, wheel_vel = - 3\<rparr>]
     = num_wheels ((OmniKinematics_init 2)\<lparr>home_on_stop := True\<rparr>)
   \<and> (\<exists>res k'. compute ((OmniKinematics_init 2)\<lparr>home_on_stop := True\<rparr>)
          [\<lparr>center_pos_x = 1, center_pos_y = 0, home_angle = 1 / 2, wheel_angle = 2, wheel_vel = 3\<rparr>,
           \<lparr>center_pos_x = - 1, center_pos_y = 0, home_angle = - 1 / 2, wheel_angle = 1, wheel_vel = - 3\<rparr>]
          0 0 0 = Inr (res, k')
        \<and> wheel_vel (res ! 0) = 0 \<and> wheel_angle (res ! 0) = 1 / 2
        \<and> wheel_vel (res ! 1) = 0 \<and> wheel_angle (res ! 1) = - 1 / 2)"
  using compute_zero_command [of
      "[\<lparr>center_pos_x = 1, center_pos_y = 0, home_angle = 1 / 2, wheel_angle = 2, wheel_vel = 3\<rparr>,
        \<lparr>center_pos_x = - 1, center_pos_y = 0, home_angle = - 1 / 2, wheel_angle = 1, wheel_vel = - 3\<rparr>]"
      "(OmniKinematics_init 2)\<lparr>home_on_stop := True\<rparr>"]
  by (force simp add: OmniKinematics_init_def)

text \<open>
  Claim C10: with the command \<open>(0, 0, 0)\<close>, \<open>compute\<close> returns the solver as it
  was, so the flags \<open>is_driving\<close> and \<open>is_alternate\<close> of every wheel are unchanged,
  and every field of a returned wheel other than \<open>wheel_vel\<close>, and other than
  \<open>wheel_angle\<close> when \<open>home_on_stop\<close> is set, is that of the input wheel.
\<close>

theorem compute_zero_command_frame:
  assumes "length wheels = num_wheels k"
  shows "\<exists>res. compute k wheels 0 0 0 = Inr (res, k)
     \<and> length res = length wheels
     \<and> (\<forall>i < length wheels.
           center_pos_x (res ! i) = center_pos_x (wheels ! i)
           \<and> center_pos_y (res ! i) = center_pos_y (wheels ! i)
           \<and> home_angle (res ! i) = home_angle (wheels ! i)
           \<and> OmniWheel.more (res ! i) = OmniWheel.more (wheels ! i)
           \<and> (\<not> home_on_stop k \<longrightarrow> wheel_angle (res ! i) = wheel_angle (wheels ! i)))"
  using compute_zero [OF assms] by (simp add: stop_wheel_def Let_def)

theorem compute_zero_command_frame_witness:
  "length [\<lparr>center_pos_x = 1, center_pos_y = 0, home_angle = 1 / 2, wheel_angle = 2, wheel_vel = 3\<rparr>]
     = num_wheels (OmniKinematics_init 1)
   \<and> (\<exists>res. compute (OmniKinematics_init 1)
          [\<lparr>center_pos_x = 1, center_pos_y = 0, home_angle = 1 / 2, wheel_angle = 2, wheel_vel = 3\<rparr>]
          0 0 0 = Inr (res, OmniKinematics_init 1)
        \<and> center_pos_x (res ! 0) = 1 \<and> center_pos_y (res ! 0) = 0
        \<and> home_angle (res ! 0) = 1 / 2 \<and> wheel_angle (res ! 0) = 2)"
  using compute_zero_command_frame [of
      "[\<lparr>center_pos_x = 1, center_pos_y = 0, home_angle = 1 / 2, wheel_angle = 2, wheel_vel = 3\<rparr>]"
      "OmniKinematics_init 1"]
  by (force simp add: OmniKinematics_init_def)

subsection \<open>Direction disambiguation\<close>

text \<open>
  Claim C3: with a non-zero command, a wheel whose stored \<open>is_driving\<close> flag is false
  is classified as driving exactly when the magnitude of its previous velocity exceeds
  \<open>2 * zero_vel_threshold\<close>, and a wheel whose stored flag is true exactly when
  that magnitude exceeds \<open>zero_vel_threshold\<close>. The classification is the flag
  \<open>is_driving\<close> that \<open>compute\<close> stores for the wheel.
\<close>

theorem compute_dead_band:
  assumes "kinematics_inv k"
    and "length wheels = num_wheels k"
    and "\<not> (vx = 0 \<and> vy = 0 \<and> yaw = 0)"
  shows "\<exists>res k'. compute k wheels vx vy yaw = Inr (res, k')
     \<and> (\<forall>i < num_wheels k.
          (\<not> is_driving k ! i \<longrightarrow>
             (is_driving k' ! i \<longleftrightarrow> \<bar>wheel_vel (wheels ! i)\<bar> > 2 * zero_vel_threshold k))
          \<and> (is_driving k ! i \<longrightarrow>
             (is_driving k' ! i \<longleftrightarrow> \<bar>wheel_vel (wheels ! i)\<bar> > zero_vel_threshold k)))"
proof -
  obtain res k' where c: "compute k wheels vx vy yaw = Inr (res, k')"
    and f: "\<forall>i < num_wheels k.
      is_driving k' ! i = is_driving (snd (compute_wheel k i (wheels ! i) vx vy yaw)) ! i"
    using compute_nonzero [OF assms] by blast
  have "(\<not> is_driving k ! i \<longrightarrow>
           (is_driving k' ! i \<longleftrightarrow> \<bar>wheel_vel (wheels ! i)\<bar> > 2 * zero_vel_threshold k))
      \<and> (is_driving k ! i \<longrightarrow>
           (is_driving k' ! i \<longleftrightarrow> \<bar>wheel_vel (wheels ! i)\<bar> > zero_vel_threshold k))"
    if "i < num_wheels k" for i
  proof -
    have "i < length (is_driving k)"
      using that assms(1) by (simp add: kinematics_inv_def)
    then show ?thesis
      using f that by (simp add: compute_wheel_is_driving)
  qed
  then show ?thesis using c by blast
qed

theorem compute_dead_band_witness:
  "kinematics_inv ((OmniKinematics_init 2)\<lparr>is_driving := [False, True]\<rparr>)
   \<and> (\<exists>res k'. compute ((OmniKinematics_init 2)\<lparr>is_driving := [False, True]\<rparr>)
          [\<lparr>center_pos_x = 1, center_pos_y = 0, home_angle = 0, wheel_angle = 0, wheel_vel = 0.015\<rparr>,
           \<lparr>center_pos_x = - 1, center_pos_y = 0, home_angle = 0, wheel_angle = 0, wheel_vel = 0.015\<rparr>]
          1 0 0 = Inr (res, k')
        \<and> \<not> is_driving k' ! 0 \<and> is_driving k' ! 1)"
  using compute_dead_band [of "(OmniKinematics_init 2)\<lparr>is_driving := [False, True]\<rparr>"
      "[\<lparr>center_pos_x = 1, center_pos_y = 0, home_angle = 0, wheel_angle = 0, wheel_vel = 0.015\<rparr>,
        \<lparr>center_pos_x = - 1, center_pos_y = 0, home_angle = 0, wheel_angle = 0, wheel_vel = 0.015\<rparr>]"
      1 0 0]
  by (force simp add: OmniKinematics_init_def kinematics_inv_def)

text \<open>
  Claim C4: with a non-zero command, for a wheel classified as driving: if the candidate
  speed and the wheel's previous velocity have opposite signs (their product is
  negative, that is, the candidate speed is positive and the previous velocity negative),
  the returned angle is the candidate angle plus \<open>pi\<close> normalized into \<open>(-pi, pi]\<close>,
  the returned velocity is the negated candidate speed and the alternate flag is set;
  otherwise the candidate angle and the candidate speed are returned and the alternate
  flag is cleared.
\<close>

theorem compute_driving_direction:
  assumes "kinematics_inv k"
    and "length wheels = num_wheels k"
    and "\<not> (vx = 0 \<and> vy = 0 \<and> yaw = 0)"
    and "i < num_wheels k"
    and "\<bar>wheel_vel (wheels ! i)\<bar>
      > (if is_driving k ! i then zero_vel_threshold k else 2 * zero_vel_threshold k)"
  shows "\<exists>res k'. compute k wheels vx vy yaw = Inr (res, k')
     \<and> (let new_wheel_angle =
               atan2 (vel_y (wheels ! i) vy yaw) (vel_x (wheels ! i) vx yaw);
             new_wheel_vel =
               hypot (vel_x (wheels ! i) vx yaw) (vel_y (wheels ! i) vy yaw)
         in (new_wheel_vel * wheel_vel (wheels ! i) < 0
               \<longleftrightarrow> 0 < new_wheel_vel \<and> wheel_vel (wheels ! i) < 0)
          \<and> (new_wheel_vel * wheel_vel (wheels ! i) < 0 \<longrightarrow>
                wheel_angle (res ! i) = normalize_angle (new_wheel_angle + pi)
                \<and> - pi < wheel_angle (res ! i) \<and> wheel_angle (res ! i) \<le> pi
                \<and> wheel_vel (res ! i) = - new_wheel_vel
                \<and> is_alternate k' ! i)
          \<and> (\<not> new_wheel_vel * wheel_vel (wheels ! i) < 0 \<longrightarrow>
                wheel_angle (res ! i) = new_wheel_angle
                \<and> wheel_vel (res ! i) = new_wheel_vel
                \<and> \<not> is_alternate k' ! i)
          \<and> is_driving k' ! i)"
proof -
  obtain res k' where c: "compute k wheels vx vy yaw = Inr (res, k')"
    and f: "\<forall>i < num_wheels k.
      res ! i = fst (compute_wheel k i (wheels ! i) vx vy yaw)
      \<and> is_driving k' ! i = is_driving (snd (compute_wheel k i (wheels ! i) vx vy yaw)) ! i
      \<and> is_alternate k' ! i
        = is_alternate (snd (compute_wheel k i (wheels ! i) vx vy yaw)) ! i"
    using compute_nonzero [OF assms(1-3)] by blast
  have b: "i < length (is_driving k)" "i < length (is_alternate k)"
    using assms(1,4) by (simp_all add: kinematics_inv_def)
  have r: "res ! i = fst (compute_wheel k i (wheels ! i) vx vy yaw)"
    using f assms(4) by simp
  have a: "is_alternate k' ! i
      = (hypot (vel_x (wheels ! i) vx yaw) (vel_y (wheels ! i) vy yaw) * wheel_vel (wheels ! i) < 0)"
    using f assms(4) compute_wheel_driving(2) [OF assms(5) b(2)] by simp
  have d: "is_driving k' ! i"
    using f assms(4,5) by (simp add: compute_wheel_is_driving [OF b(1)])
  have s: "hypot x y * v < 0 \<longleftrightarrow> 0 < hypot x y \<and> v < 0" for x y v :: real
    using hypot_nonneg [of x y] by (auto simp add: mult_less_0_iff)
  show ?thesis
    using c r a d s normalize_angle_range
    by (simp add: compute_wheel_driving(1) [OF assms(5)] Let_def set_wheel_angle_def)
qed

theorem compute_driving_direction_witness:
  "\<exists>res k'. compute (OmniKinematics_init 1)
      [\<lparr>center_pos_x = 1, center_pos_y = 0, home_angle = 0, wheel_angle = 0, wheel_vel = - 1\<rparr>]
      1 0 0 = Inr (res, k')
    \<and> wheel_angle (res ! 0) = pi \<and> wheel_vel (res ! 0) = - 1
    \<and> is_alternate k' ! 0 \<and> is_driving k' ! 0"
  using compute_driving_direction [of "OmniKinematics_init 1"
      "[\<lparr>center_pos_x = 1, center_pos_y = 0, home_angle = 0, wheel_angle = 0, wheel_vel = - 1\<rparr>]"
      1 0 0 0]
  by (simp add: OmniKinematics_init_def kinematics_inv_def vel_straight_ahead Let_def hypot_def
      atan2_def normalize_angle_def) blast

end
